theory Spec2Isabelle
  imports Complex_Main
begin

section \<open>Data model of the coverage path planner\<close>

text \<open>
  The embedding follows \<^verbatim>\<open>app/services/path_planning.py\<close> and
  \<^verbatim>\<open>app/utils/geometry.py\<close>. Python floats are modelled as the reals of HOL, so
  the statements below are about exact arithmetic: rounding, overflow to infinity and NaN are
  outside the model. The one exception is the termination of the spiral loop, which rounding
  decides: it is stated on a second model of that loop, on doubles. Python exceptions are
  values of the type \<open>error\<close>.

  The dataclass \<^verbatim>\<open>PathPoint\<close> has the fields x, y, z, orientation, tool_active,
  motion_type and feed_rate; the three coordinates carry the prefix \<open>pt_\<close> here, since a
  record field is a global constant and x, y, z are wanted as variables.
\<close>

record PathPoint =
  pt_x :: real
  pt_y :: real
  pt_z :: real
  orientation :: real
  tool_active :: bool
  motion_type :: string
  feed_rate :: real

text \<open>
  An entry of \<^verbatim>\<open>PlanningParameters.obstacles\<close> is a dictionary with the keys
  type, geometry and bounds. The planner reads type and, for a rectangle, the geometry keys
  center_x, center_y, width and height; bounds is never read. Obstacles are stored only
  after \<^verbatim>\<open>validate_obstacle_geometry\<close> accepted them, which it does for the
  types rectangle and circle only.
\<close>

datatype Obstacle =
    Rectangle real real real real
  | Circle real real real

record PlanningParameters =
  robot_width :: real
  overlap_percentage :: real
  resolution :: real
  wall_width :: real
  wall_height :: real
  obstacles :: "Obstacle list"

datatype error =
    ZeroDivisionError
  | ValueError
  | ValidationError

record Metrics =
  total_length :: real
  coverage_percentage :: real
  estimated_duration :: real

definition RAPID_THRESHOLD :: real where
  "RAPID_THRESHOLD = 5 / 100"

definition AVG_FEED_RATE :: real where
  "AVG_FEED_RATE = 1 / 10"

definition COLLINEAR_TOLERANCE :: real where
  "COLLINEAR_TOLERANCE = 1 / 1000"

text \<open>\<^verbatim>\<open>PathPoint(x=.., y=.., orientation=..)\<close>: the other fields take their defaults.\<close>

definition planned_point :: "real \<Rightarrow> real \<Rightarrow> real \<Rightarrow> PathPoint" where
  "planned_point x y ori =
     \<lparr>pt_x = x, pt_y = y, pt_z = 0, orientation = ori, tool_active = True,
      motion_type = ''linear'', feed_rate = 100\<rparr>"

text \<open>
  \<^verbatim>\<open>PathPoint(x=current_point.x, y=current_point.y, z=0.0, tool_active=False,
  motion_type="rapid")\<close>: orientation and feed rate take their defaults.
\<close>

definition rapid_point :: "PathPoint \<Rightarrow> PathPoint" where
  "rapid_point c =
     \<lparr>pt_x = pt_x c, pt_y = pt_y c, pt_z = 0, orientation = 0, tool_active = False,
      motion_type = ''rapid'', feed_rate = 100\<rparr>"

section \<open>Geometry helpers\<close>

definition calculate_distance :: "real \<Rightarrow> real \<Rightarrow> real \<Rightarrow> real \<Rightarrow> real \<Rightarrow> real \<Rightarrow> real" where
  "calculate_distance x1 y1 x2 y2 z1 z2 = sqrt ((x2 - x1)\<^sup>2 + (y2 - y1)\<^sup>2 + (z2 - z1)\<^sup>2)"

definition is_within_bounds :: "real \<Rightarrow> real \<Rightarrow> PlanningParameters \<Rightarrow> bool" where
  "is_within_bounds x y p \<longleftrightarrow>
     robot_width p / 2 \<le> x \<and> x \<le> wall_width p - robot_width p / 2 \<and>
     robot_width p / 2 \<le> y \<and> y \<le> wall_height p - robot_width p / 2"

text \<open>The loop of \<^verbatim>\<open>_is_point_free\<close>: the first rectangle that holds the point ends it.\<close>

fun point_free_of :: "real \<Rightarrow> real \<Rightarrow> real \<Rightarrow> Obstacle list \<Rightarrow> bool" where
  "point_free_of x y buffer [] = True"
| "point_free_of x y buffer (Rectangle cx cy w h # rest) =
     (if cx - w / 2 - buffer \<le> x \<and> x \<le> cx + w / 2 + buffer \<and>
         cy - h / 2 - buffer \<le> y \<and> y \<le> cy + h / 2 + buffer
      then False else point_free_of x y buffer rest)"
| "point_free_of x y buffer (Circle cx cy r # rest) = point_free_of x y buffer rest"

definition is_point_free :: "real \<Rightarrow> real \<Rightarrow> PlanningParameters \<Rightarrow> bool" where
  "is_point_free x y p = point_free_of x y (robot_width p / 2) (obstacles p)"

section \<open>Path optimizer\<close>

definition is_collinear :: "PathPoint \<Rightarrow> PathPoint \<Rightarrow> PathPoint \<Rightarrow> bool" where
  "is_collinear p1 p2 p3 \<longleftrightarrow>
     \<bar>(pt_x p2 - pt_x p1) * (pt_y p3 - pt_y p1) - (pt_y p2 - pt_y p1) * (pt_x p3 - pt_x p1)\<bar>
       < COLLINEAR_TOLERANCE"

text \<open>One round of the loop of \<^verbatim>\<open>_add_connecting_moves\<close>, at index \<open>i\<close>.\<close>

definition connect_step :: "PathPoint list \<Rightarrow> nat \<Rightarrow> PathPoint list \<Rightarrow> PathPoint list" where
  "connect_step path_points i optimized_points =
     (let prev_point = path_points ! (i - 1);
          current_point = path_points ! i;
          distance = calculate_distance (pt_x prev_point) (pt_y prev_point)
                       (pt_x current_point) (pt_y current_point) 0 0
      in (if distance > RAPID_THRESHOLD
          then optimized_points @ [rapid_point current_point]
          else optimized_points) @ [current_point])"

definition add_connecting_moves :: "PathPoint list \<Rightarrow> PathPoint list" where
  "add_connecting_moves path_points =
     (if length path_points < 2 then path_points
      else fold (connect_step path_points) [1..<length path_points] [path_points ! 0])"

text \<open>One round of the pruning loop of \<^verbatim>\<open>_optimize_path\<close>, at index \<open>i\<close>.\<close>

definition prune_step :: "PathPoint list \<Rightarrow> nat \<Rightarrow> PathPoint list \<Rightarrow> PathPoint list" where
  "prune_step path_points i optimized =
     (if \<not> is_collinear (path_points ! (i - 1)) (path_points ! i) (path_points ! (i + 1))
      then optimized @ [path_points ! i] else optimized)"

definition optimize_path :: "PathPoint list \<Rightarrow> PathPoint list" where
  "optimize_path path_points =
     (if length path_points < 2 then path_points
      else add_connecting_moves
             (fold (prune_step path_points) [1..<length path_points - 1] [path_points ! 0]
                @ [last path_points]))"

text \<open>
  The rapid-move insertion as the specification words it: walking the sequence, each point
  whose 2D distance from its predecessor exceeds the threshold is preceded by one synthetic
  rapid point at its own position; every point of the input is kept as it is.
\<close>

fun insert_rapids :: "PathPoint \<Rightarrow> PathPoint list \<Rightarrow> PathPoint list" where
  "insert_rapids prev [] = []"
| "insert_rapids prev (cur # rest) =
     (if sqrt ((pt_x cur - pt_x prev)\<^sup>2 + (pt_y cur - pt_y prev)\<^sup>2) > 5 / 100
      then [\<lparr>pt_x = pt_x cur, pt_y = pt_y cur, pt_z = 0, orientation = 0, tool_active = False,
              motion_type = ''rapid'', feed_rate = 100\<rparr>, cur]
      else [cur]) @ insert_rapids cur rest"

section \<open>Metrics calculator\<close>

text \<open>One round of the accumulation loop of \<^verbatim>\<open>_calculate_path_metrics\<close>.\<close>

definition segment_length :: "PathPoint list \<Rightarrow> nat \<Rightarrow> real" where
  "segment_length path_points i =
     calculate_distance (pt_x (path_points ! (i - 1))) (pt_y (path_points ! (i - 1)))
       (pt_x (path_points ! i)) (pt_y (path_points ! i))
       (pt_z (path_points ! (i - 1))) (pt_z (path_points ! i))"

definition length_step :: "PathPoint list \<Rightarrow> nat \<Rightarrow> real \<times> real \<Rightarrow> real \<times> real" where
  "length_step path_points i acc =
     (let total = fst acc + segment_length path_points i
      in (total, if tool_active (path_points ! i)
                 then snd acc + segment_length path_points i else snd acc))"

text \<open>The pair (total_length, cutting_length) when the loop has ended.\<close>

definition path_lengths :: "PathPoint list \<Rightarrow> real \<times> real" where
  "path_lengths path_points = fold (length_step path_points) [1..<length path_points] (0, 0)"

fun rectangle_area :: "Obstacle \<Rightarrow> real" where
  "rectangle_area (Rectangle cx cy w h) = w * h"
| "rectangle_area (Circle cx cy r) = 0"

fun is_rectangle :: "Obstacle \<Rightarrow> bool" where
  "is_rectangle (Rectangle cx cy w h) = True"
| "is_rectangle (Circle cx cy r) = False"

definition calculate_path_metrics :: "PathPoint list \<Rightarrow> PlanningParameters \<Rightarrow> Metrics" where
  "calculate_path_metrics path_points p =
     (if path_points = [] then
        \<lparr>total_length = 0, coverage_percentage = 0, estimated_duration = 0\<rparr>
      else
        (let total = fst (path_lengths path_points);
             cutting_length = snd (path_lengths path_points);
             wall_area = wall_width p * wall_height p;
             obstacle_area = sum_list (map rectangle_area (filter is_rectangle (obstacles p)));
             effective_area = wall_area - obstacle_area;
             covered_area = cutting_length * robot_width p
         in \<lparr>total_length = total,
             coverage_percentage =
               (if effective_area > 0 then min 100 (covered_area / effective_area * 100) else 0),
             estimated_duration =
               (if AVG_FEED_RATE > 0 then cutting_length / AVG_FEED_RATE else 0)\<rparr>))"

text \<open>
  The two lengths as the specification words them, recomputed from the sequence alone: the
  sum of the 3D Euclidean distance over the consecutive pairs, and the same sum over the
  pairs whose destination is active.
\<close>

definition dist3 :: "PathPoint \<Rightarrow> PathPoint \<Rightarrow> real" where
  "dist3 a b = sqrt ((pt_x b - pt_x a)\<^sup>2 + (pt_y b - pt_y a)\<^sup>2 + (pt_z b - pt_z a)\<^sup>2)"

fun consecutive_pairs :: "'a list \<Rightarrow> ('a \<times> 'a) list" where
  "consecutive_pairs (a # b # rest) = (a, b) # consecutive_pairs (b # rest)"
| "consecutive_pairs _ = []"

definition total_length_spec :: "PathPoint list \<Rightarrow> real" where
  "total_length_spec pts = sum_list (map (\<lambda>(a, b). dist3 a b) (consecutive_pairs pts))"

definition cutting_length_spec :: "PathPoint list \<Rightarrow> real" where
  "cutting_length_spec pts =
     sum_list (map (\<lambda>(a, b). dist3 a b)
       (filter (\<lambda>(a, b). tool_active b) (consecutive_pairs pts)))"

section \<open>Library functions the planners call\<close>

text \<open>
  \<^verbatim>\<open>numpy.arange(start, stop, step)\<close> on floats: the values
  \<open>start + i * step\<close> for \<open>i\<close> below \<open>ceil((stop - start) / step)\<close>, none when that
  count is not positive; a zero step raises ZeroDivisionError.
\<close>

definition np_arange :: "real \<Rightarrow> real \<Rightarrow> real \<Rightarrow> error + real list" where
  "np_arange start stop step =
     (if step = 0 then Inl ZeroDivisionError
      else Inr (map (\<lambda>i. start + real i * step) [0..<nat \<lceil>(stop - start) / step\<rceil>]))"

text \<open>Python's \<^verbatim>\<open>int(x)\<close> on a float truncates towards zero.\<close>

definition py_int :: "real \<Rightarrow> int" where
  "py_int r = (if 0 \<le> r then \<lfloor>r\<rfloor> else \<lceil>r\<rceil>)"

section \<open>Coverage planners\<close>

definition effective_width :: "PlanningParameters \<Rightarrow> real" where
  "effective_width p = robot_width p * (1 - overlap_percentage p / 100)"

subsection \<open>Boustrophedon\<close>

text \<open>
  The loop over \<^verbatim>\<open>y_positions\<close>, with the loop variable \<^verbatim>\<open>direction\<close> and
  the list \<^verbatim>\<open>path_points\<close> passed along. An exception of \<^verbatim>\<open>np.arange\<close> ends
  the call.
\<close>

fun boustrophedon_rows ::
  "PlanningParameters \<Rightarrow> int \<Rightarrow> real list \<Rightarrow> PathPoint list \<Rightarrow> error + PathPoint list" where
  "boustrophedon_rows p direction [] path_points = Inr path_points"
| "boustrophedon_rows p direction (y # ys) path_points =
     (let x_start = (if direction = 1 then robot_width p / 2
                     else wall_width p - robot_width p / 2);
          x_end = (if direction = 1 then wall_width p - robot_width p / 2
                   else robot_width p / 2)
      in case np_arange x_start x_end (resolution p * of_int direction) of
           Inl e \<Rightarrow> Inl e
         | Inr x_positions \<Rightarrow>
             boustrophedon_rows p (direction * (- 1)) ys
               (path_points @
                  map (\<lambda>x. planned_point x y (if direction = 1 then 0 else pi))
                    (filter (\<lambda>x. is_point_free x y p) x_positions)))"

definition plan_boustrophedon :: "PlanningParameters \<Rightarrow> error + PathPoint list" where
  "plan_boustrophedon p =
     (case np_arange (robot_width p / 2) (wall_height p - robot_width p / 2)
             (effective_width p) of
        Inl e \<Rightarrow> Inl e
      | Inr y_positions \<Rightarrow> boustrophedon_rows p 1 y_positions [])"

subsection \<open>Spiral\<close>

definition spiral_max_radius :: "PlanningParameters \<Rightarrow> real" where
  "spiral_max_radius p = min (wall_width p) (wall_height p) / 2 - robot_width p / 2"

text \<open>
  The \<^verbatim>\<open>while radius < max_radius\<close> loop. Nothing bounds its rounds in the source,
  so the loop is a partial function: \<open>None\<close> is a loop that never ends.
\<close>

partial_function (option) spiral_loop ::
  "PlanningParameters \<Rightarrow> real \<Rightarrow> real \<Rightarrow> PathPoint list \<Rightarrow> PathPoint list option" where
  "spiral_loop p radius angle path_points =
     (if radius < spiral_max_radius p then
        (let angle_step = resolution p / max radius (1 / 100);
             x = wall_width p / 2 + radius * cos angle;
             y = wall_height p / 2 + radius * sin angle;
             path_points' =
               (if is_within_bounds x y p \<and> is_point_free x y p
                then path_points @ [planned_point x y (angle + pi / 2)] else path_points);
             angle' = angle + angle_step
         in if angle' \<ge> 2 * pi
            then spiral_loop p (radius + effective_width p) 0 path_points'
            else spiral_loop p radius angle' path_points')
      else Some path_points)"

definition plan_spiral :: "PlanningParameters \<Rightarrow> PathPoint list option" where
  "plan_spiral p = spiral_loop p (robot_width p / 2) 0 []"

subsection \<open>Zigzag\<close>

text \<open>
  One round of the loop over the passes: the end points of pass \<open>i\<close> and the points
  interpolated between them. A zero resolution raises ZeroDivisionError.
\<close>

definition zigzag_pass :: "PlanningParameters \<Rightarrow> real \<Rightarrow> nat \<Rightarrow> error + PathPoint list" where
  "zigzag_pass p spacing i =
     (let diagonal_angle = pi / 4;
          x_offset = real i * spacing;
          start_x = x_offset;
          start_y = (if i mod 2 = 0 then robot_width p / 2
                     else wall_height p - robot_width p / 2);
          end_x = min (wall_width p - robot_width p / 2) (x_offset + wall_height p);
          end_y = (if i mod 2 = 0
                   then min (wall_height p - robot_width p / 2) (start_y + (end_x - start_x))
                   else max (robot_width p / 2) (start_y - (end_x - start_x)));
          ori = (if i mod 2 = 0 then diagonal_angle else - diagonal_angle);
          distance = calculate_distance start_x start_y end_x end_y 0 0
      in if resolution p = 0 then Inl ZeroDivisionError
         else
           (let num_points = max 2 (py_int (distance / resolution p));
                candidates =
                  map (\<lambda>j. let t = real j / real_of_int (max (num_points - 1) 1)
                            in (start_x + t * (end_x - start_x), start_y + t * (end_y - start_y)))
                    [0..<nat num_points]
            in Inr (map (\<lambda>(x, y). planned_point x y ori)
                      (filter (\<lambda>(x, y). is_point_free x y p) candidates))))"

fun zigzag_passes ::
  "PlanningParameters \<Rightarrow> real \<Rightarrow> nat list \<Rightarrow> PathPoint list \<Rightarrow> error + PathPoint list" where
  "zigzag_passes p spacing [] path_points = Inr path_points"
| "zigzag_passes p spacing (i # rest) path_points =
     (case zigzag_pass p spacing i of
        Inl e \<Rightarrow> Inl e
      | Inr pts \<Rightarrow> zigzag_passes p spacing rest (path_points @ pts))"

definition plan_zigzag :: "PlanningParameters \<Rightarrow> error + PathPoint list" where
  "plan_zigzag p =
     (let diagonal_angle = pi / 4;
          spacing = effective_width p / sin diagonal_angle
      in if spacing = 0 then Inl ZeroDivisionError
         else zigzag_passes p spacing [0..<nat (py_int (wall_width p / spacing) + 1)] [])"

subsection \<open>Dispatch\<close>

text \<open>
  \<^verbatim>\<open>_execute_algorithm\<close>: \<open>None\<close> is a call that never returns, \<open>Some (Inl e)\<close>
  a call that raises \<open>e\<close>. An unknown name raises ValueError.
\<close>

definition execute_algorithm ::
  "string \<Rightarrow> PlanningParameters \<Rightarrow> (error + PathPoint list) option" where
  "execute_algorithm algorithm p =
     (if algorithm = ''boustrophedon'' then Some (plan_boustrophedon p)
      else if algorithm = ''spiral'' then map_option Inr (plan_spiral p)
      else if algorithm = ''zigzag'' then Some (plan_zigzag p)
      else Some (Inl ValueError))"

section \<open>Angle normalization\<close>






section \<open>Planning request and orchestration\<close>

datatype Algorithm = BOUSTROPHEDON | SPIRAL | ZIGZAG

fun algorithm_value :: "Algorithm \<Rightarrow> string" where
  "algorithm_value BOUSTROPHEDON = ''boustrophedon''"
| "algorithm_value SPIRAL = ''spiral''"
| "algorithm_value ZIGZAG = ''zigzag''"

text \<open>
  The request model \<^verbatim>\<open>TrajectoryPlanRequest\<close>; its numeric fields carry the prefix
  \<open>req_\<close> here, the names without it being those of \<^verbatim>\<open>PlanningParameters\<close>.
\<close>

record TrajectoryPlanRequest =
  wall_id :: int
  algorithm :: Algorithm
  req_robot_width :: real
  req_overlap_percentage :: real
  req_resolution :: real

text \<open>
  The field constraints of the request model: \<^verbatim>\<open>robot_width: gt=0, le=1\<close>,
  \<^verbatim>\<open>overlap_percentage: ge=0, le=50\<close>, \<^verbatim>\<open>resolution: gt=0, le=0.1\<close>. A request that
  breaks one is rejected with a validation error when it is built, before the handler of the
  route runs.
\<close>

definition validate_request :: "TrajectoryPlanRequest \<Rightarrow> error + TrajectoryPlanRequest" where
  "validate_request r =
     (if 0 < req_robot_width r \<and> req_robot_width r \<le> 1 \<and>
         0 \<le> req_overlap_percentage r \<and> req_overlap_percentage r \<le> 50 \<and>
         0 < req_resolution r \<and> req_resolution r \<le> 1 / 10
      then Inr r else Inl ValidationError)"

text \<open>The part of a stored wall that planning reads.\<close>

record Wall =
  width :: real
  height :: real
  wall_obstacles :: "Obstacle list"

definition prepare_planning_parameters ::
  "Wall \<Rightarrow> TrajectoryPlanRequest \<Rightarrow> PlanningParameters" where
  "prepare_planning_parameters wall request =
     \<lparr>robot_width = req_robot_width request,
      overlap_percentage = req_overlap_percentage request,
      resolution = req_resolution request,
      wall_width = width wall,
      wall_height = height wall,
      obstacles = wall_obstacles wall\<rparr>"

text \<open>
  \<^verbatim>\<open>PathPlanningService.plan_trajectory\<close> without the database record: planner,
  optimizer, metrics. \<open>None\<close> is a call that never returns.
\<close>

definition plan_trajectory ::
  "Wall \<Rightarrow> TrajectoryPlanRequest \<Rightarrow> (error + PathPoint list \<times> Metrics) option" where
  "plan_trajectory wall request =
     (let params = prepare_planning_parameters wall request
      in case execute_algorithm (algorithm_value (algorithm request)) params of
           None \<Rightarrow> None
         | Some (Inl e) \<Rightarrow> Some (Inl e)
         | Some (Inr path_points) \<Rightarrow>
             (let optimized_points = optimize_path path_points
              in Some (Inr (optimized_points,
                            calculate_path_metrics optimized_points params))))"

text \<open>
  The route \<^verbatim>\<open>POST /planning/plan\<close>: the request is validated, then the planning
  service is called on the wall found for it.
\<close>

definition plan_route ::
  "Wall \<Rightarrow> TrajectoryPlanRequest \<Rightarrow> (error + PathPoint list \<times> Metrics) option" where
  "plan_route wall raw =
     (case validate_request raw of
        Inl e \<Rightarrow> Some (Inl e)
      | Inr request \<Rightarrow> plan_trajectory wall request)"

section \<open>Double-precision arithmetic\<close>

text \<open>
  Whether the \<^verbatim>\<open>while\<close> loop of the spiral planner ends depends on rounding: an
  addition whose result rounds back to the old value makes no progress. For that question
  the loop is modelled a second time, with every arithmetic operation of the source rounded
  to a double.

  A finite double is \<open>m * 2^e\<close> with \<open>\<bar>m\<bar> < 2^53\<close> and \<open>-1074 \<le> e \<le> 971\<close>. The function
  \<open>fl\<close> rounds a real to the nearest double, a tie going to the even mantissa, as IEEE 754
  does by default; a result beyond the largest double (an infinity in Python) is outside the
  model.
\<close>

definition round_half_even :: "real \<Rightarrow> int" where
  "round_half_even y =
     (let f = \<lfloor>y\<rfloor>; d = y - of_int f
      in if d < 1 / 2 then f else if 1 / 2 < d then f + 1
         else if even f then f else f + 1)"

definition fl_exponent :: "real \<Rightarrow> int" where
  "fl_exponent x = max (\<lfloor>log 2 \<bar>x\<bar>\<rfloor> - 52) (- 1074)"

definition fl :: "real \<Rightarrow> real" where
  "fl x =
     (if x = 0 then 0
      else of_int (round_half_even (x / 2 powr of_int (fl_exponent x)))
             * 2 powr of_int (fl_exponent x))"

text \<open>\<^verbatim>\<open>math.pi\<close> is the double nearest to \<open>\<pi>\<close>.\<close>

definition math_pi :: real where
  "math_pi = fl pi"

subsection \<open>The spiral planner on doubles\<close>

text \<open>
  The definitions of the spiral planner and of the two predicates it calls, operation by
  operation as the source writes them. \<^verbatim>\<open>math.cos\<close> and \<^verbatim>\<open>math.sin\<close> belong to
  the C library, which does not fix their last bit: they are parameters of the model.
\<close>

definition effective_width_fl :: "PlanningParameters \<Rightarrow> real" where
  "effective_width_fl p = fl (robot_width p * fl (1 - fl (overlap_percentage p / 100)))"

definition spiral_max_radius_fl :: "PlanningParameters \<Rightarrow> real" where
  "spiral_max_radius_fl p =
     fl (fl (min (wall_width p) (wall_height p) / 2) - fl (robot_width p / 2))"

definition is_within_bounds_fl :: "real \<Rightarrow> real \<Rightarrow> PlanningParameters \<Rightarrow> bool" where
  "is_within_bounds_fl x y p \<longleftrightarrow>
     fl (robot_width p / 2) \<le> x \<and> x \<le> fl (wall_width p - fl (robot_width p / 2)) \<and>
     fl (robot_width p / 2) \<le> y \<and> y \<le> fl (wall_height p - fl (robot_width p / 2))"

fun point_free_of_fl :: "real \<Rightarrow> real \<Rightarrow> real \<Rightarrow> Obstacle list \<Rightarrow> bool" where
  "point_free_of_fl x y buffer [] = True"
| "point_free_of_fl x y buffer (Rectangle cx cy w h # rest) =
     (if fl (fl (cx - fl (w / 2)) - buffer) \<le> x \<and> x \<le> fl (fl (cx + fl (w / 2)) + buffer) \<and>
         fl (fl (cy - fl (h / 2)) - buffer) \<le> y \<and> y \<le> fl (fl (cy + fl (h / 2)) + buffer)
      then False else point_free_of_fl x y buffer rest)"
| "point_free_of_fl x y buffer (Circle cx cy r # rest) = point_free_of_fl x y buffer rest"

definition is_point_free_fl :: "real \<Rightarrow> real \<Rightarrow> PlanningParameters \<Rightarrow> bool" where
  "is_point_free_fl x y p = point_free_of_fl x y (fl (robot_width p / 2)) (obstacles p)"

partial_function (option) spiral_loop_fl ::
  "(real \<Rightarrow> real) \<Rightarrow> (real \<Rightarrow> real) \<Rightarrow> PlanningParameters \<Rightarrow> real \<Rightarrow> real \<Rightarrow> PathPoint list
     \<Rightarrow> PathPoint list option" where
  "spiral_loop_fl math_cos math_sin p radius angle path_points =
     (if radius < spiral_max_radius_fl p then
        (let angle_step = fl (resolution p / max radius (fl (1 / 100)));
             x = fl (fl (wall_width p / 2) + fl (radius * math_cos angle));
             y = fl (fl (wall_height p / 2) + fl (radius * math_sin angle));
             path_points' =
               (if is_within_bounds_fl x y p \<and> is_point_free_fl x y p
                then path_points @ [planned_point x y (fl (angle + fl (math_pi / 2)))]
                else path_points);
             angle' = fl (angle + angle_step)
         in if angle' \<ge> fl (2 * math_pi)
            then spiral_loop_fl math_cos math_sin p (fl (radius + effective_width_fl p)) 0
                   path_points'
            else spiral_loop_fl math_cos math_sin p radius angle' path_points')
      else Some path_points)"

definition plan_spiral_fl ::
  "(real \<Rightarrow> real) \<Rightarrow> (real \<Rightarrow> real) \<Rightarrow> PlanningParameters \<Rightarrow> PathPoint list option" where
  "plan_spiral_fl math_cos math_sin p =
     spiral_loop_fl math_cos math_sin p (fl (robot_width p / 2)) 0 []"

section \<open>Example inputs\<close>

text \<open>A 0.05 by 0.05 surface and a robot 0.1 wide, with no obstacle.\<close>

definition tiny_surface :: PlanningParameters where
  "tiny_surface =
     \<lparr>robot_width = 1 / 10, overlap_percentage = 20, resolution = 1 / 20,
      wall_width = 1 / 20, wall_height = 1 / 20, obstacles = []\<rparr>"

text \<open>A 0.2 by 0.2 surface that the spiral leaves after one turn of two samples.\<close>

definition spiral_example :: PlanningParameters where
  "spiral_example =
     \<lparr>robot_width = 1 / 20, overlap_percentage = 0, resolution = 1 / 10,
      wall_width = 1 / 5, wall_height = 1 / 5, obstacles = []\<rparr>"

text \<open>
  The wall and the parameters of the test \<^verbatim>\<open>test_plan_trajectory\<close> (a 3 by 3 wall,
  robot width 0.1, overlap 20, resolution 0.05), given to the zigzag planner.
\<close>

definition zigzag_example :: PlanningParameters where
  "zigzag_example =
     \<lparr>robot_width = 1 / 10, overlap_percentage = 20, resolution = 1 / 20,
      wall_width = 3, wall_height = 3, obstacles = []\<rparr>"

definition example_wall :: Wall where
  "example_wall = \<lparr>width = 3, height = 3, wall_obstacles = []\<rparr>"

text \<open>A request for the spiral planner with an overlap of 100 percent.\<close>

definition full_overlap_request :: TrajectoryPlanRequest where
  "full_overlap_request =
     \<lparr>wall_id = 1, algorithm = SPIRAL, req_robot_width = 1 / 10,
      req_overlap_percentage = 100, req_resolution = 1 / 20\<rparr>"

text \<open>
  A 3 by 3 surface and a robot whose width is the smallest positive double, 5e-324, with an
  overlap of 50 percent and a resolution of 0.0625; the request model accepts these values.
\<close>

definition underflow_example :: PlanningParameters where
  "underflow_example =
     \<lparr>robot_width = 2 powr (- 1074), overlap_percentage = 50, resolution = 1 / 16,
      wall_width = 3, wall_height = 3, obstacles = []\<rparr>"

section \<open>Properties of the optimizer\<close>

lemma insert_rapids_snoc:
  "insert_rapids p (xs @ [c]) =
     insert_rapids p xs @
       (if calculate_distance (pt_x (last (p # xs))) (pt_y (last (p # xs))) (pt_x c) (pt_y c) 0 0
            > RAPID_THRESHOLD
        then [rapid_point c, c] else [c])"
  by (induction xs arbitrary: p)
     (simp_all add: calculate_distance_def RAPID_THRESHOLD_def rapid_point_def)

lemma nth_Cons_last_take:
  "n \<le> length ps \<Longrightarrow> (p # ps) ! n = last (p # take n ps)"
  by (cases n) (simp_all add: last_conv_nth take_Suc_conv_app_nth min_def)

lemma connect_fold:
  "n \<le> length ps \<Longrightarrow>
     fold (connect_step (p # ps)) [1..<Suc n] [p] = p # insert_rapids p (take n ps)"
proof (induction n)
  case 0
  show ?case by simp
next
  case (Suc n)
  then have n: "n < length ps" by simp
  have prev: "(p # ps) ! n = last (p # take n ps)"
    using n by (intro nth_Cons_last_take) simp
  have "fold (connect_step (p # ps)) [1..<Suc (Suc n)] [p] =
        connect_step (p # ps) (Suc n) (p # insert_rapids p (take n ps))"
    using Suc.IH n by simp
  also have "\<dots> = p # insert_rapids p (take n ps @ [ps ! n])"
    using prev by (simp add: connect_step_def Let_def insert_rapids_snoc)
  finally show ?case
    using n by (simp add: take_Suc_conv_app_nth)
qed

lemma add_connecting_moves_Cons:
  "add_connecting_moves (p # ps) = p # insert_rapids p ps"
proof (cases ps)
  case Nil
  then show ?thesis by (simp add: add_connecting_moves_def)
next
  case (Cons q qs)
  have "fold (connect_step (p # ps)) [1..<Suc (length ps)] [p] =
        p # insert_rapids p (take (length ps) ps)"
    by (rule connect_fold) simp
  then show ?thesis using Cons by (simp add: add_connecting_moves_def)
qed

lemma last_insert_rapids: "last (p # insert_rapids p ps) = last (p # ps)"
  by (induction ps arbitrary: p) simp_all

lemma prune_fold_hd:
  "acc \<noteq> [] \<Longrightarrow>
     fold (prune_step pts) js acc \<noteq> [] \<and> hd (fold (prune_step pts) js acc) = hd acc"
  by (induction js arbitrary: acc) (simp_all add: prune_step_def)

text \<open>
  Claim C6. For every input sequence of at least two points, the output of the optimizer
  begins with the first point of the input and ends with its last point.
\<close>

theorem optimize_path_keeps_ends:
  assumes "2 \<le> length pts"
  shows "hd (optimize_path pts) = hd pts \<and> last (optimize_path pts) = last pts"
proof -
  let ?pr = "fold (prune_step pts) [1..<length pts - 1] [pts ! 0]"
  from prune_fold_hd [of "[pts ! 0]" pts "[1..<length pts - 1]"]
  obtain q qs where pr: "?pr = q # qs" and q: "q = pts ! 0"
    by (cases ?pr) auto
  have ne: "pts \<noteq> []" using assms by auto
  have "optimize_path pts = add_connecting_moves (q # (qs @ [last pts]))"
    using assms pr by (simp add: optimize_path_def)
  then have opt: "optimize_path pts = q # insert_rapids q (qs @ [last pts])"
    by (simp add: add_connecting_moves_Cons)
  have "last (optimize_path pts) = last (q # (qs @ [last pts]))"
    unfolding opt by (rule last_insert_rapids)
  then show ?thesis using opt q ne by (simp add: hd_conv_nth)
qed

theorem optimize_path_keeps_ends_witness:
  "2 \<le> length [planned_point 0 0 0, planned_point 1 0 0, planned_point 2 3 pi] \<and>
   hd (optimize_path [planned_point 0 0 0, planned_point 1 0 0, planned_point 2 3 pi])
     = planned_point 0 0 0 \<and>
   last (optimize_path [planned_point 0 0 0, planned_point 1 0 0, planned_point 2 3 pi])
     = planned_point 2 3 pi"
  using optimize_path_keeps_ends
    [of "[planned_point 0 0 0, planned_point 1 0 0, planned_point 2 3 pi]"]
  by simp

text \<open>
  Claim C7. The rapid-move insertion step keeps the first point and then walks the
  sequence: a point whose 2D distance from its predecessor exceeds the rapid threshold 0.05
  is preceded by exactly one synthetic point with its (x, y), z = 0, active flag false and
  motion type rapid; a point at or below the threshold is not preceded by anything; every
  point of the input stays in the output, unchanged and in order.
\<close>

theorem add_connecting_moves_inserts_rapids:
  "add_connecting_moves pts = (case pts of [] \<Rightarrow> [] | p # ps \<Rightarrow> p # insert_rapids p ps)"
  by (cases pts) (simp_all add: add_connecting_moves_Cons, simp add: add_connecting_moves_def)

section \<open>Properties of the metrics calculator\<close>

lemma length_fold:
  "fold (length_step pts) js acc =
     (fst acc + sum_list (map (segment_length pts) js),
      snd acc + sum_list (map (segment_length pts) (filter (\<lambda>i. tool_active (pts ! i)) js)))"
  by (induction js arbitrary: acc) (simp_all add: length_step_def Let_def)

lemma consecutive_pairs_index:
  "consecutive_pairs pts = map (\<lambda>i. (pts ! (i - 1), pts ! i)) [1..<length pts]"
proof (induction pts rule: consecutive_pairs.induct)
  case (1 a b rest)
  have "[1..<length (a # b # rest)] = 1 # map Suc [1..<length (b # rest)]"
    by (simp add: upt_conv_Cons map_Suc_upt del: upt_Suc)
  then show ?case using 1 by (simp add: comp_def del: upt_Suc)
qed simp_all

lemma segment_length_dist3:
  "segment_length pts = (\<lambda>i. dist3 (pts ! (i - 1)) (pts ! i))"
  by (rule ext) (simp add: segment_length_def dist3_def calculate_distance_def)

lemma path_lengths_spec:
  "path_lengths pts = (total_length_spec pts, cutting_length_spec pts)"
  by (simp add: path_lengths_def length_fold total_length_spec_def cutting_length_spec_def
        consecutive_pairs_index segment_length_dist3 filter_map comp_def)

lemma cutting_length_spec_nonneg: "0 \<le> cutting_length_spec pts"
  unfolding cutting_length_spec_def
  by (rule sum_list_nonneg) (auto simp: dist3_def)

text \<open>
  Claim C5. For every point sequence, the total length of the metrics calculator is the sum
  of the 3D Euclidean distance over the consecutive pairs of the sequence, and the cutting
  length its loop accumulates (the estimated duration is that length over the average feed
  rate) is the sum over exactly the pairs whose destination point is active.
\<close>

theorem metrics_lengths_are_segment_sums:
  "total_length (calculate_path_metrics pts p) = total_length_spec pts \<and>
   snd (path_lengths pts) = cutting_length_spec pts \<and>
   estimated_duration (calculate_path_metrics pts p) = cutting_length_spec pts / AVG_FEED_RATE"
  by (simp add: calculate_path_metrics_def Let_def path_lengths_spec AVG_FEED_RATE_def
        total_length_spec_def cutting_length_spec_def)

text \<open>
  Claim C3. For every point sequence and every parameter set whose robot width is not
  negative, with any obstacle list (also one whose rectangles sum to the surface area or
  more), the coverage percentage of the metrics calculator lies between 0 and 100.
\<close>

theorem coverage_percentage_bounds:
  assumes "0 \<le> robot_width p"
  shows "0 \<le> coverage_percentage (calculate_path_metrics pts p) \<and>
         coverage_percentage (calculate_path_metrics pts p) \<le> 100"
proof -
  have "0 \<le> snd (path_lengths pts) * robot_width p"
    using assms cutting_length_spec_nonneg [of pts] by (simp add: path_lengths_spec)
  then show ?thesis
    by (simp add: calculate_path_metrics_def Let_def)
qed

theorem coverage_percentage_bounds_witness:
  "0 \<le> robot_width
          \<lparr>robot_width = 1 / 10, overlap_percentage = 20, resolution = 1 / 20,
           wall_width = 1, wall_height = 1, obstacles = [Rectangle (1 / 2) (1 / 2) 1 1]\<rparr> \<and>
   0 \<le> coverage_percentage (calculate_path_metrics [planned_point 0 0 0, planned_point 3 4 0]
          \<lparr>robot_width = 1 / 10, overlap_percentage = 20, resolution = 1 / 20,
           wall_width = 1, wall_height = 1, obstacles = [Rectangle (1 / 2) (1 / 2) 1 1]\<rparr>) \<and>
   coverage_percentage (calculate_path_metrics [planned_point 0 0 0, planned_point 3 4 0]
          \<lparr>robot_width = 1 / 10, overlap_percentage = 20, resolution = 1 / 20,
           wall_width = 1, wall_height = 1, obstacles = [Rectangle (1 / 2) (1 / 2) 1 1]\<rparr>) \<le> 100"
  using coverage_percentage_bounds
    [of "\<lparr>robot_width = 1 / 10, overlap_percentage = 20, resolution = 1 / 20,
          wall_width = 1, wall_height = 1, obstacles = [Rectangle (1 / 2) (1 / 2) 1 1]\<rparr>"
        "[planned_point 0 0 0, planned_point 3 4 0]"]
  by simp

section \<open>Properties of the angle normalization\<close>








section \<open>Properties of the boustrophedon planner\<close>

lemma np_arange_none:
  assumes "step \<noteq> 0" and "(stop - start) / step \<le> 0"
  shows "np_arange start stop step = Inr []"
proof -
  have "\<lceil>(stop - start) / step\<rceil> \<le> 0" using assms(2) by (simp add: ceiling_le_iff)
  then show ?thesis using assms(1) by (simp add: np_arange_def)
qed

lemma np_arange_up:
  assumes "0 < step" and "np_arange start stop step = Inr xs" and "x \<in> set xs"
  shows "start \<le> x \<and> x < stop"
proof -
  from assms obtain i where i: "i < nat \<lceil>(stop - start) / step\<rceil>" and x: "x = start + real i * step"
    by (auto simp add: np_arange_def)
  from i have "int i < \<lceil>(stop - start) / step\<rceil>" by simp
  then have "real i < (stop - start) / step" by (simp add: less_ceiling_iff)
  then have "real i * step < stop - start" using assms(1) by (simp add: pos_less_divide_eq)
  moreover have "0 \<le> real i * step" using assms(1) by simp
  ultimately show ?thesis using x by simp
qed

lemma np_arange_down:
  assumes "step < 0" and "np_arange start stop step = Inr xs" and "x \<in> set xs"
  shows "stop < x \<and> x \<le> start"
proof -
  from assms obtain i where i: "i < nat \<lceil>(stop - start) / step\<rceil>" and x: "x = start + real i * step"
    by (auto simp add: np_arange_def)
  from i have "int i < \<lceil>(stop - start) / step\<rceil>" by simp
  then have "real i < (stop - start) / step" by (simp add: less_ceiling_iff)
  then have "stop - start < real i * step" using assms(1) by (simp add: neg_less_divide_eq)
  moreover have "real i * step \<le> 0" using assms(1) by (simp add: mult_nonneg_nonpos)
  ultimately show ?thesis using x by simp
qed

lemma boustrophedon_rows_points:
  assumes "boustrophedon_rows p d ys acc = Inr res"
    and "\<forall>pt\<in>set acc. Q pt"
    and "\<forall>x y. Q (planned_point x y 0) \<and> Q (planned_point x y pi)"
  shows "\<forall>pt\<in>set res. Q pt"
  using assms
proof (induction ys arbitrary: d acc)
  case Nil
  then show ?case by simp
next
  case (Cons y ys)
  show ?case
  proof (cases "np_arange (if d = 1 then robot_width p / 2 else wall_width p - robot_width p / 2)
                  (if d = 1 then wall_width p - robot_width p / 2 else robot_width p / 2)
                  (resolution p * of_int d)")
    case (Inl e)
    then show ?thesis using Cons.prems(1) by (simp add: Let_def)
  next
    case (Inr xs)
    let ?acc = "acc @ map (\<lambda>x. planned_point x y (if d = 1 then 0 else pi))
                        (filter (\<lambda>x. is_point_free x y p) xs)"
    have run: "boustrophedon_rows p (d * (- 1)) ys ?acc = Inr res"
      using Cons.prems(1) Inr by (simp add: Let_def)
    have "\<forall>pt\<in>set ?acc. Q pt" using Cons.prems(2,3) by auto
    from Cons.IH [OF run this Cons.prems(3)] show ?thesis .
  qed
qed

lemma plan_boustrophedon_points:
  assumes "plan_boustrophedon p = Inr res"
    and "\<forall>x y. Q (planned_point x y 0) \<and> Q (planned_point x y pi)"
  shows "\<forall>pt\<in>set res. Q pt"
proof (cases "np_arange (robot_width p / 2) (wall_height p - robot_width p / 2) (effective_width p)")
  case (Inl e)
  then show ?thesis using assms(1) by (simp add: plan_boustrophedon_def)
next
  case (Inr ys)
  then have "boustrophedon_rows p 1 ys [] = Inr res"
    using assms(1) by (simp add: plan_boustrophedon_def)
  from boustrophedon_rows_points [OF this _ assms(2)] show ?thesis by simp
qed

lemma boustrophedon_rows_within:
  assumes "boustrophedon_rows p d ys acc = Inr res"
    and "d = 1 \<or> d = - 1" and "0 < resolution p"
    and "\<forall>y\<in>set ys. robot_width p / 2 \<le> y \<and> y \<le> wall_height p - robot_width p / 2"
    and "\<forall>pt\<in>set acc. is_within_bounds (pt_x pt) (pt_y pt) p"
  shows "\<forall>pt\<in>set res. is_within_bounds (pt_x pt) (pt_y pt) p"
  using assms
proof (induction ys arbitrary: d acc)
  case Nil
  then show ?case by simp
next
  case (Cons y ys)
  let ?start = "if d = 1 then robot_width p / 2 else wall_width p - robot_width p / 2"
  let ?stop = "if d = 1 then wall_width p - robot_width p / 2 else robot_width p / 2"
  show ?case
  proof (cases "np_arange ?start ?stop (resolution p * of_int d)")
    case (Inl e)
    then show ?thesis using Cons.prems(1) by (simp add: Let_def)
  next
    case (Inr xs)
    let ?acc = "acc @ map (\<lambda>x. planned_point x y (if d = 1 then 0 else pi))
                        (filter (\<lambda>x. is_point_free x y p) xs)"
    have run: "boustrophedon_rows p (d * (- 1)) ys ?acc = Inr res"
      using Cons.prems(1) Inr by (simp add: Let_def)
    have y: "robot_width p / 2 \<le> y \<and> y \<le> wall_height p - robot_width p / 2"
      using Cons.prems(4) by simp
    have xs: "robot_width p / 2 \<le> x \<and> x \<le> wall_width p - robot_width p / 2" if "x \<in> set xs" for x
    proof (cases "d = 1")
      case True
      then have "np_arange (robot_width p / 2) (wall_width p - robot_width p / 2) (resolution p) = Inr xs"
        using Inr by simp
      from np_arange_up [OF Cons.prems(3) this that] show ?thesis by simp
    next
      case False
      then have d: "d = - 1" using Cons.prems(2) by simp
      then have "np_arange (wall_width p - robot_width p / 2) (robot_width p / 2) (- resolution p) = Inr xs"
        using Inr by simp
      moreover have "- resolution p < 0" using Cons.prems(3) by simp
      ultimately show ?thesis using np_arange_down that by fastforce
    qed
    have acc': "\<forall>pt\<in>set ?acc. is_within_bounds (pt_x pt) (pt_y pt) p"
      using Cons.prems(5) xs y by (auto simp add: is_within_bounds_def planned_point_def)
    have d': "d * (- 1) = 1 \<or> d * (- 1) = - 1" using Cons.prems(2) by auto
    have ys: "\<forall>y\<in>set ys. robot_width p / 2 \<le> y \<and> y \<le> wall_height p - robot_width p / 2"
      using Cons.prems(4) by simp
    from Cons.IH [OF run d' Cons.prems(3) ys acc'] show ?thesis .
  qed
qed

lemma plan_boustrophedon_within:
  assumes "plan_boustrophedon p = Inr res" and "0 < resolution p" and "0 < effective_width p"
  shows "\<forall>pt\<in>set res. is_within_bounds (pt_x pt) (pt_y pt) p"
proof (cases "np_arange (robot_width p / 2) (wall_height p - robot_width p / 2) (effective_width p)")
  case (Inl e)
  then show ?thesis using assms(1) by (simp add: plan_boustrophedon_def)
next
  case (Inr ys)
  then have run: "boustrophedon_rows p 1 ys [] = Inr res"
    using assms(1) by (simp add: plan_boustrophedon_def)
  have "\<forall>y\<in>set ys. robot_width p / 2 \<le> y \<and> y \<le> wall_height p - robot_width p / 2"
    using np_arange_up [OF assms(3) Inr] by fastforce
  from boustrophedon_rows_within [OF run _ assms(2) this] show ?thesis by simp
qed

lemma plan_boustrophedon_tiny: "plan_boustrophedon tiny_surface = Inr []"
proof -
  have "np_arange (robot_width tiny_surface / 2)
          (wall_height tiny_surface - robot_width tiny_surface / 2)
          (effective_width tiny_surface) = Inr []"
    by (rule np_arange_none) (simp_all add: tiny_surface_def effective_width_def)
  then show ?thesis by (simp add: plan_boustrophedon_def)
qed

section \<open>Properties of the spiral planner\<close>

lemma effective_width_pos:
  "0 < robot_width p \<Longrightarrow> overlap_percentage p < 100 \<Longrightarrow> 0 < effective_width p"
  by (simp add: effective_width_def)

lemma ceiling_pred_less:
  fixes x :: real
  assumes "0 < x"
  shows "nat \<lceil>x - 1\<rceil> < nat \<lceil>x\<rceil>"
proof -
  have "0 < \<lceil>x\<rceil>" using assms by simp
  then show ?thesis by (simp add: ceiling_diff_one)
qed

lemma spiral_turn_returns:
  assumes res: "0 < resolution p"
    and next_turn: "\<And>acc. \<exists>r. spiral_loop p (radius + effective_width p) 0 acc = Some r"
  shows "\<exists>r. spiral_loop p radius angle acc = Some r"
proof (induction angle arbitrary: acc
    rule: measure_induct_rule [where f = "\<lambda>a. nat \<lceil>(2 * pi - a) / (resolution p / max radius (1 / 100))\<rceil>"])
  case (less angle)
  let ?step = "resolution p / max radius (1 / 100)"
  have step: "0 < ?step" using res by (simp add: max_def)
  show ?case
  proof (cases "radius < spiral_max_radius p")
    case False
    then show ?thesis by (subst spiral_loop.simps) simp
  next
    case True
    show ?thesis
    proof (cases "angle + ?step \<ge> 2 * pi")
      case wrap: True
      show ?thesis
        using True wrap next_turn by (subst spiral_loop.simps) (simp add: Let_def)
    next
      case go: False
      have "(2 * pi - (angle + ?step)) / ?step = (2 * pi - angle) / ?step - 1"
        using step by (simp add: field_simps)
      moreover have "angle < 2 * pi" using go step by linarith
      then have "0 < 2 * pi - angle" by simp
      then have "0 < (2 * pi - angle) / ?step"
        using step by (rule divide_pos_pos)
      ultimately have "nat \<lceil>(2 * pi - (angle + ?step)) / ?step\<rceil> < nat \<lceil>(2 * pi - angle) / ?step\<rceil>"
        using ceiling_pred_less by metis
      from less.IH [OF this] show ?thesis
        using True go by (subst spiral_loop.simps) (simp add: Let_def)
    qed
  qed
qed

lemma spiral_loop_returns:
  assumes res: "0 < resolution p" and eff: "0 < effective_width p"
  shows "\<exists>r. spiral_loop p radius angle acc = Some r"
proof (induction radius arbitrary: angle acc
    rule: measure_induct_rule [where f = "\<lambda>r. nat \<lceil>(spiral_max_radius p - r) / effective_width p\<rceil>"])
  case (less radius)
  show ?case
  proof (cases "radius < spiral_max_radius p")
    case False
    then show ?thesis by (subst spiral_loop.simps) simp
  next
    case True
    have "(spiral_max_radius p - (radius + effective_width p)) / effective_width p
          = (spiral_max_radius p - radius) / effective_width p - 1"
      using eff by (simp add: field_simps)
    moreover have "0 < spiral_max_radius p - radius" using True by simp
    then have "0 < (spiral_max_radius p - radius) / effective_width p"
      using eff by (rule divide_pos_pos)
    ultimately have "nat \<lceil>(spiral_max_radius p - (radius + effective_width p)) / effective_width p\<rceil>
          < nat \<lceil>(spiral_max_radius p - radius) / effective_width p\<rceil>"
      using ceiling_pred_less by metis
    from less.IH [OF this] have "\<And>acc. \<exists>r. spiral_loop p (radius + effective_width p) 0 acc = Some r"
      by blast
    then show ?thesis by (rule spiral_turn_returns [OF res])
  qed
qed


lemma spiral_loop_within:
  assumes "spiral_loop p radius angle acc = Some res"
    and "\<forall>pt\<in>set acc. Q pt"
    and "\<forall>x y a. is_within_bounds x y p \<and> is_point_free x y p \<longrightarrow> Q (planned_point x y a)"
  shows "\<forall>pt\<in>set res. Q pt"
  using assms
proof (induction p radius angle acc res rule: spiral_loop.raw_induct [rotated, consumes 1, case_names step])
  case (step loop p radius angle acc res)
  show ?case
  proof (cases "radius < spiral_max_radius p")
    case False
    then show ?thesis using step.hyps step.prems(1) by simp
  next
    case True
    let ?step = "resolution p / max radius (1 / 100)"
    let ?x = "wall_width p / 2 + radius * cos angle"
    let ?y = "wall_height p / 2 + radius * sin angle"
    let ?acc = "if is_within_bounds ?x ?y p \<and> is_point_free ?x ?y p
                then acc @ [planned_point ?x ?y (angle + pi / 2)] else acc"
    have acc': "\<forall>pt\<in>set ?acc. Q pt"
      using step.prems by auto
    show ?thesis
    proof (cases "angle + ?step \<ge> 2 * pi")
      case wrap: True
      then have "loop p (radius + effective_width p) 0 ?acc = Some res"
        using step.hyps True by (simp add: Let_def)
      from step.IH [OF this acc' step.prems(2)] show ?thesis .
    next
      case go: False
      then have "loop p radius (angle + ?step) ?acc = Some res"
        using step.hyps True by (simp add: Let_def)
      from step.IH [OF this acc' step.prems(2)] show ?thesis .
    qed
  qed
qed

lemma plan_spiral_within:
  assumes "plan_spiral p = Some res"
  shows "\<forall>pt\<in>set res. is_within_bounds (pt_x pt) (pt_y pt) p"
  using assms unfolding plan_spiral_def
  by (rule spiral_loop_within) (simp_all add: planned_point_def)

lemma spiral_loop_stop:
  "\<not> radius < spiral_max_radius p \<Longrightarrow> spiral_loop p radius angle acc = Some acc"
  by (subst spiral_loop.simps) simp

lemma spiral_loop_emit:
  assumes "radius < spiral_max_radius p"
    and "is_within_bounds (wall_width p / 2 + radius * cos angle)
           (wall_height p / 2 + radius * sin angle) p"
    and "is_point_free (wall_width p / 2 + radius * cos angle)
           (wall_height p / 2 + radius * sin angle) p"
  shows "spiral_loop p radius angle acc =
     (if angle + resolution p / max radius (1 / 100) \<ge> 2 * pi
      then spiral_loop p (radius + effective_width p) 0
             (acc @ [planned_point (wall_width p / 2 + radius * cos angle)
                       (wall_height p / 2 + radius * sin angle) (angle + pi / 2)])
      else spiral_loop p radius (angle + resolution p / max radius (1 / 100))
             (acc @ [planned_point (wall_width p / 2 + radius * cos angle)
                       (wall_height p / 2 + radius * sin angle) (angle + pi / 2)]))"
  using assms by (subst spiral_loop.simps) (simp add: Let_def)

lemma spiral_loop_stuck:
  assumes "spiral_loop p radius angle acc = Some res"
    and "effective_width p = 0" and "radius < spiral_max_radius p"
  shows False
  using assms
proof (induction p radius angle acc res rule: spiral_loop.raw_induct [rotated, consumes 1, case_names step])
  case (step loop p radius angle acc res)
  let ?step = "resolution p / max radius (1 / 100)"
  let ?x = "wall_width p / 2 + radius * cos angle"
  let ?y = "wall_height p / 2 + radius * sin angle"
  let ?acc = "if is_within_bounds ?x ?y p \<and> is_point_free ?x ?y p
              then acc @ [planned_point ?x ?y (angle + pi / 2)] else acc"
  show ?case
  proof (cases "angle + ?step \<ge> 2 * pi")
    case True
    then have "loop p (radius + effective_width p) 0 ?acc = Some res"
      using step.hyps step.prems by (simp add: Let_def)
    from step.IH [OF this] show ?thesis using step.prems by simp
  next
    case False
    then have "loop p radius (angle + ?step) ?acc = Some res"
      using step.hyps step.prems by (simp add: Let_def)
    from step.IH [OF this] show ?thesis using step.prems by simp
  qed
qed

lemma plan_spiral_tiny: "plan_spiral tiny_surface = Some []"
  unfolding plan_spiral_def
  by (rule spiral_loop_stop) (simp add: tiny_surface_def spiral_max_radius_def)

lemma pi_ge_three: "3 \<le> pi"
proof -
  have "sin (pi / 6) \<le> pi / 6" by (rule sin_x_le_x) simp
  then show ?thesis by (simp add: sin_30)
qed

lemma spiral_example_bounds:
  "is_within_bounds (wall_width spiral_example / 2 + 1 / 40 * cos a)
     (wall_height spiral_example / 2 + 1 / 40 * sin a) spiral_example"
proof -
  define c s where "c = cos a" and "s = sin a"
  have "- 1 \<le> c" "c \<le> 1" "- 1 \<le> s" "s \<le> 1" by (simp_all add: c_def s_def)
  then have "1 / 40 \<le> 1 / 10 + 1 / 40 * c \<and> 1 / 10 + 1 / 40 * c \<le> 1 / 5 - 1 / 40 \<and>
             1 / 40 \<le> 1 / 10 + 1 / 40 * s \<and> 1 / 10 + 1 / 40 * s \<le> 1 / 5 - 1 / 40"
    by simp
  then show ?thesis
    unfolding c_def s_def by (simp add: is_within_bounds_def spiral_example_def)
qed

lemma spiral_example_free: "is_point_free x y spiral_example"
  by (simp add: is_point_free_def spiral_example_def)

lemma spiral_example_step:
  "spiral_loop spiral_example (1 / 40) a acc =
     (if a + 4 \<ge> 2 * pi
      then spiral_loop spiral_example (3 / 40) 0
             (acc @ [planned_point (1 / 10 + 1 / 40 * cos a) (1 / 10 + 1 / 40 * sin a) (a + pi / 2)])
      else spiral_loop spiral_example (1 / 40) (a + 4)
             (acc @ [planned_point (1 / 10 + 1 / 40 * cos a) (1 / 10 + 1 / 40 * sin a) (a + pi / 2)]))"
proof -
  have r: "(1 / 40 :: real) < spiral_max_radius spiral_example"
    by (simp add: spiral_max_radius_def spiral_example_def)
  have step: "resolution spiral_example / max (1 / 40) (1 / 100) = 4"
    by (simp add: spiral_example_def)
  have eff: "1 / 40 + effective_width spiral_example = 3 / 40"
    by (simp add: spiral_example_def effective_width_def)
  have w: "wall_width spiral_example / 2 = 1 / 10" "wall_height spiral_example / 2 = 1 / 10"
    by (simp_all add: spiral_example_def)
  show ?thesis
    using spiral_loop_emit [OF r spiral_example_bounds spiral_example_free, of a acc]
    unfolding step eff w .
qed

lemma plan_spiral_example:
  "plan_spiral spiral_example =
     Some [planned_point (1 / 10 + 1 / 40 * cos 0) (1 / 10 + 1 / 40 * sin 0) (0 + pi / 2),
           planned_point (1 / 10 + 1 / 40 * cos 4) (1 / 10 + 1 / 40 * sin 4) (4 + pi / 2)]"
proof -
  have lo: "3 \<le> pi" by (rule pi_ge_three)
  have hi: "pi < 4" by (rule pi_less_4)
  have stop: "\<not> (3 / 40 :: real) < spiral_max_radius spiral_example"
    by (simp add: spiral_max_radius_def spiral_example_def)
  have "plan_spiral spiral_example = spiral_loop spiral_example (1 / 40) 0 []"
    by (simp add: plan_spiral_def spiral_example_def)
  also have "\<dots> = spiral_loop spiral_example (1 / 40) 4
      [planned_point (1 / 10 + 1 / 40 * cos 0) (1 / 10 + 1 / 40 * sin 0) (0 + pi / 2)]"
    using lo by (subst spiral_example_step) simp
  also have "\<dots> = spiral_loop spiral_example (3 / 40) 0
      [planned_point (1 / 10 + 1 / 40 * cos 0) (1 / 10 + 1 / 40 * sin 0) (0 + pi / 2),
       planned_point (1 / 10 + 1 / 40 * cos 4) (1 / 10 + 1 / 40 * sin 4) (4 + pi / 2)]"
    using hi by (subst spiral_example_step) simp
  also have "\<dots> = Some
      [planned_point (1 / 10 + 1 / 40 * cos 0) (1 / 10 + 1 / 40 * sin 0) (0 + pi / 2),
       planned_point (1 / 10 + 1 / 40 * cos 4) (1 / 10 + 1 / 40 * sin 4) (4 + pi / 2)]"
    using stop by (rule spiral_loop_stop)
  finally show ?thesis .
qed

section \<open>Properties of the zigzag planner\<close>

lemma py_int_nonneg: "0 \<le> r \<Longrightarrow> 0 \<le> py_int r"
  by (simp add: py_int_def)

lemma zigzag_pass_unfold:
  assumes "sx = real i * s"
    and "sy = (if i mod 2 = 0 then robot_width p / 2 else wall_height p - robot_width p / 2)"
    and "ex = min (wall_width p - robot_width p / 2) (real i * s + wall_height p)"
    and "ey = (if i mod 2 = 0
               then min (wall_height p - robot_width p / 2) (sy + (ex - sx))
               else max (robot_width p / 2) (sy - (ex - sx)))"
    and "ori = (if i mod 2 = 0 then pi / 4 else - (pi / 4))"
    and "n = max 2 (py_int (calculate_distance sx sy ex ey 0 0 / resolution p))"
    and "resolution p \<noteq> 0"
  shows "zigzag_pass p s i =
     Inr (map (\<lambda>(x, y). planned_point x y ori)
           (filter (\<lambda>(x, y). is_point_free x y p)
             (map (\<lambda>j. (sx + real j / real_of_int (max (n - 1) 1) * (ex - sx),
                         sy + real j / real_of_int (max (n - 1) 1) * (ey - sy)))
               [0..<nat n])))"
  unfolding zigzag_pass_def Let_def assms(1-6)
  by (rule if_not_P) (rule assms(7))

lemma zigzag_pass_shape:
  assumes "resolution p \<noteq> 0"
  shows "\<exists>cands. zigzag_pass p s i =
           Inr (map (\<lambda>(x, y). planned_point x y (if i mod 2 = 0 then pi / 4 else - (pi / 4)))
                  (filter (\<lambda>(x, y). is_point_free x y p) cands))"
  unfolding zigzag_pass_def Let_def
  by (rule exI, rule if_not_P, rule assms)

lemma zigzag_pass_zero_resolution:
  "resolution p = 0 \<Longrightarrow> zigzag_pass p s i = Inl ZeroDivisionError"
  unfolding zigzag_pass_def Let_def by (rule if_P)

lemma zigzag_pass_returns:
  assumes "resolution p \<noteq> 0"
  shows "\<exists>pts. zigzag_pass p s i = Inr pts"
  unfolding zigzag_pass_def Let_def
  by (rule exI, rule if_not_P, rule assms)

lemma zigzag_pass_points:
  assumes "zigzag_pass p s i = Inr pts"
    and "\<forall>x y. Q (planned_point x y (pi / 4)) \<and> Q (planned_point x y (- (pi / 4)))"
  shows "\<forall>pt\<in>set pts. Q pt"
proof (cases "resolution p = 0")
  case True
  then show ?thesis using assms(1) by (simp add: zigzag_pass_zero_resolution)
next
  case False
  from zigzag_pass_shape [OF False, of s i] obtain cands where
    "zigzag_pass p s i =
       Inr (map (\<lambda>(x, y). planned_point x y (if i mod 2 = 0 then pi / 4 else - (pi / 4)))
              (filter (\<lambda>(x, y). is_point_free x y p) cands))"
    by blast
  then have "pts = map (\<lambda>(x, y). planned_point x y (if i mod 2 = 0 then pi / 4 else - (pi / 4)))
              (filter (\<lambda>(x, y). is_point_free x y p) cands)"
    using assms(1) by simp
  then show ?thesis using assms(2) by (cases "i mod 2 = 0") auto
qed

lemma zigzag_passes_points:
  assumes "zigzag_passes p s js acc = Inr res"
    and "\<forall>pt\<in>set acc. Q pt"
    and "\<forall>x y. Q (planned_point x y (pi / 4)) \<and> Q (planned_point x y (- (pi / 4)))"
  shows "\<forall>pt\<in>set res. Q pt"
  using assms
proof (induction js arbitrary: acc)
  case Nil
  then show ?case by simp
next
  case (Cons i js)
  show ?case
  proof (cases "zigzag_pass p s i")
    case (Inl e)
    then show ?thesis using Cons.prems(1) by simp
  next
    case (Inr pts)
    then have run: "zigzag_passes p s js (acc @ pts) = Inr res"
      using Cons.prems(1) by simp
    have "\<forall>pt\<in>set (acc @ pts). Q pt"
      using Cons.prems(2) zigzag_pass_points [OF Inr Cons.prems(3)] by auto
    from Cons.IH [OF run this Cons.prems(3)] show ?thesis .
  qed
qed

lemma plan_zigzag_points:
  assumes "plan_zigzag p = Inr res"
    and "\<forall>x y. Q (planned_point x y (pi / 4)) \<and> Q (planned_point x y (- (pi / 4)))"
  shows "\<forall>pt\<in>set res. Q pt"
proof (cases "effective_width p / sin (pi / 4) = 0")
  case True
  then show ?thesis using assms(1) by (simp add: plan_zigzag_def Let_def)
next
  case False
  then have "zigzag_passes p (effective_width p / sin (pi / 4))
               [0..<nat (py_int (wall_width p / (effective_width p / sin (pi / 4))) + 1)] [] = Inr res"
    using assms(1) by (simp add: plan_zigzag_def Let_def)
  from zigzag_passes_points [OF this _ assms(2)] show ?thesis by simp
qed

lemma zigzag_pass_first:
  assumes res: "resolution p \<noteq> 0" and free: "is_point_free 0 (robot_width p / 2) p"
  shows "\<exists>rest. zigzag_pass p s 0 = Inr (planned_point 0 (robot_width p / 2) (pi / 4) # rest)"
proof -
  define ex where "ex = min (wall_width p - robot_width p / 2) (real 0 * s + wall_height p)"
  define ey where "ey = min (wall_height p - robot_width p / 2) (robot_width p / 2 + (ex - 0))"
  define n where "n = max 2 (py_int (calculate_distance 0 (robot_width p / 2) ex ey 0 0 / resolution p))"
  have run: "zigzag_pass p s 0 =
     Inr (map (\<lambda>(x, y). planned_point x y (pi / 4))
           (filter (\<lambda>(x, y). is_point_free x y p)
             (map (\<lambda>j. (0 + real j / real_of_int (max (n - 1) 1) * (ex - 0),
                         robot_width p / 2 + real j / real_of_int (max (n - 1) 1) * (ey - robot_width p / 2)))
               [0..<nat n])))"
    by (rule zigzag_pass_unfold) (simp_all add: ex_def ey_def n_def res)
  have "0 < nat n" by (simp add: n_def)
  then have "[0..<nat n] = 0 # [Suc 0..<nat n]" by (rule upt_conv_Cons)
  then show ?thesis unfolding run using free by simp
qed

lemma zigzag_passes_prefix:
  assumes "resolution p \<noteq> 0"
  shows "\<exists>tail. zigzag_passes p s js acc = Inr (acc @ tail)"
proof (induction js arbitrary: acc)
  case Nil
  show ?case by simp
next
  case (Cons i js)
  obtain pts where pts: "zigzag_pass p s i = Inr pts"
    using zigzag_pass_returns [OF assms] by blast
  from Cons [of "acc @ pts"] obtain tail where
    "zigzag_passes p s js (acc @ pts) = Inr ((acc @ pts) @ tail)" by blast
  then have "zigzag_passes p s (i # js) acc = Inr (acc @ (pts @ tail))"
    using pts by simp
  then show ?case by blast
qed

lemma plan_zigzag_unfold:
  assumes "effective_width p / sin (pi / 4) \<noteq> 0"
  shows "plan_zigzag p =
     zigzag_passes p (effective_width p / sin (pi / 4))
       [0..<nat (py_int (wall_width p / (effective_width p / sin (pi / 4))) + 1)] []"
  unfolding plan_zigzag_def Let_def
  by (rule if_not_P) (rule assms)

lemma plan_zigzag_first:
  assumes eff: "0 < effective_width p" and w: "0 \<le> wall_width p"
    and res: "resolution p \<noteq> 0" and free: "is_point_free 0 (robot_width p / 2) p"
  shows "\<exists>rest. plan_zigzag p = Inr (planned_point 0 (robot_width p / 2) (pi / 4) # rest)"
proof -
  define s where "s = effective_width p / sin (pi / 4)"
  have s: "0 < s" using eff by (simp add: s_def sin_45)
  then have "0 \<le> py_int (wall_width p / s)" using w by (intro py_int_nonneg) simp
  then have "0 < nat (py_int (wall_width p / s) + 1)" by simp
  then have js: "[0..<nat (py_int (wall_width p / s) + 1)]
                 = 0 # [Suc 0..<nat (py_int (wall_width p / s) + 1)]"
    by (rule upt_conv_Cons)
  have run: "plan_zigzag p = zigzag_passes p s [0..<nat (py_int (wall_width p / s) + 1)] []"
    using s unfolding plan_zigzag_def Let_def s_def by (simp only: if_not_P)
  obtain rest where first: "zigzag_pass p s 0 = Inr (planned_point 0 (robot_width p / 2) (pi / 4) # rest)"
    using zigzag_pass_first [OF res free] by blast
  obtain tail where "zigzag_passes p s [Suc 0..<nat (py_int (wall_width p / s) + 1)]
                       ([] @ planned_point 0 (robot_width p / 2) (pi / 4) # rest)
                     = Inr (([] @ planned_point 0 (robot_width p / 2) (pi / 4) # rest) @ tail)"
    using zigzag_passes_prefix [OF res] by blast
  then have "plan_zigzag p = Inr (planned_point 0 (robot_width p / 2) (pi / 4) # (rest @ tail))"
    unfolding run js using first by simp
  then show ?thesis by blast
qed

lemma distance_tiny: "calculate_distance 0 (1 / 20) 0 0 0 0 = 1 / 20"
  unfolding calculate_distance_def
  by (rule real_sqrt_unique) (simp_all add: power2_eq_square)

lemma zigzag_pass_tiny:
  "zigzag_pass tiny_surface s 0 = Inr [planned_point 0 (1 / 20) (pi / 4), planned_point 0 0 (pi / 4)]"
proof -
  have two: "[0..<2::nat] = [0, 1]" by (simp add: numeral_2_eq_2)
  have "zigzag_pass tiny_surface s 0 =
     Inr (map (\<lambda>(x, y). planned_point x y (pi / 4))
           (filter (\<lambda>(x, y). is_point_free x y tiny_surface)
             (map (\<lambda>j. (0 + real j / real_of_int (max (2 - 1) 1) * (0 - 0),
                         1 / 20 + real j / real_of_int (max (2 - 1) 1) * (0 - 1 / 20)))
               [0..<nat 2])))"
    by (rule zigzag_pass_unfold)
       (simp_all add: tiny_surface_def distance_tiny py_int_def)
  also have "\<dots> = Inr [planned_point 0 (1 / 20) (pi / 4), planned_point 0 0 (pi / 4)]"
    by (simp add: is_point_free_def tiny_surface_def two)
  finally show ?thesis .
qed

lemma plan_zigzag_tiny:
  "plan_zigzag tiny_surface = Inr [planned_point 0 (1 / 20) (pi / 4), planned_point 0 0 (pi / 4)]"
proof -
  define s where "s = effective_width tiny_surface / sin (pi / 4)"
  have s_eq: "s = 4 / (25 * sqrt 2)"
    by (simp add: s_def effective_width_def tiny_surface_def sin_45)
  have s: "s \<noteq> 0" by (simp add: s_eq)
  have ratio: "wall_width tiny_surface / s = 5 * sqrt 2 / 16"
    by (simp add: s_eq tiny_surface_def)
  have "0 \<le> 5 * sqrt 2 / 16" by simp
  moreover have "5 * sqrt 2 / 16 < 1" using sqrt2_less_2 by simp
  ultimately have "\<lfloor>5 * sqrt 2 / 16\<rfloor> = 0" by (simp add: floor_eq_iff)
  then have passes: "py_int (wall_width tiny_surface / s) = 0"
    by (simp add: ratio py_int_def)
  have "plan_zigzag tiny_surface
        = zigzag_passes tiny_surface s [0..<nat (py_int (wall_width tiny_surface / s) + 1)] []"
    using s unfolding s_def by (rule plan_zigzag_unfold)
  also have "\<dots> = zigzag_passes tiny_surface s [0] []" by (simp add: passes)
  also have "\<dots> = Inr [planned_point 0 (1 / 20) (pi / 4), planned_point 0 0 (pi / 4)]"
    by (simp add: zigzag_pass_tiny)
  finally show ?thesis .
qed

lemma plan_zigzag_example:
  "\<exists>rest. plan_zigzag zigzag_example = Inr (planned_point 0 (1 / 20) (pi / 4) # rest)"
proof -
  have "\<exists>rest. plan_zigzag zigzag_example
          = Inr (planned_point 0 (robot_width zigzag_example / 2) (pi / 4) # rest)"
    by (rule plan_zigzag_first)
       (simp_all add: zigzag_example_def effective_width_def is_point_free_def)
  then show ?thesis by (simp add: zigzag_example_def)
qed

section \<open>Properties of the double-precision model\<close>

lemma fl_zero: "fl 0 = 0"
  by (simp add: fl_def)

lemma round_half_even_of_int: "round_half_even (of_int m) = m"
  by (simp add: round_half_even_def)

lemma round_half_even_small:
  assumes "0 \<le> y" and "y \<le> 1 / 2"
  shows "round_half_even y = 0"
proof -
  have "\<lfloor>y\<rfloor> = 0" using assms by (simp add: floor_eq_iff)
  then show ?thesis using assms by (simp add: round_half_even_def)
qed

lemma fl_underflow:
  assumes "0 < x" and "x \<le> 2 powr (- 1075)"
  shows "fl x = 0"
proof -
  have "x < 2 powr (- 1021)"
  proof -
    have "(2::real) powr (- 1075) < 2 powr (- 1021)" by (rule powr_less_mono) simp_all
    then show ?thesis using assms(2) by linarith
  qed
  then have "log 2 x < - 1021" using assms(1) by (simp add: log_less_iff)
  then have "\<lfloor>log 2 \<bar>x\<bar>\<rfloor> < - 1021" using assms(1) by (simp add: floor_less_iff)
  then have e: "fl_exponent x = - 1074" unfolding fl_exponent_def by linarith
  have "x / 2 powr (- 1074) \<le> 2 powr (- 1075) / 2 powr (- 1074)"
    using assms(2) by (simp add: divide_right_mono)
  also have "\<dots> = 2 powr (- 1)" by (simp flip: powr_diff)
  also have "\<dots> = 1 / 2" by (simp add: powr_minus)
  finally have "x / 2 powr (- 1074) \<le> 1 / 2" .
  moreover have "0 \<le> x / 2 powr (- 1074)" using assms(1) by simp
  ultimately have "round_half_even (x / 2 powr (- 1074)) = 0"
    by (intro round_half_even_small)
  then show ?thesis using assms(1) by (simp add: fl_def e)
qed

lemma fl_exact:
  fixes m k :: int
  assumes x: "x = of_int m * 2 powr of_int (k - 52)"
    and m: "2 ^ 52 \<le> m" "m < 2 ^ 53" and k: "- 1022 \<le> k"
  shows "fl x = x"
proof -
  have pos: "0 < x" using x m by (simp add: zero_less_mult_iff)
  have lo: "2 powr of_int k \<le> x"
  proof -
    have "(2::real) powr of_int k = 2 ^ 52 * 2 powr of_int (k - 52)"
      by (simp add: powr_diff)
    also have "\<dots> \<le> of_int m * 2 powr of_int (k - 52)"
      using m(1) by (intro mult_right_mono) (simp_all add: numeral_power_le_of_int_cancel_iff)
    finally show ?thesis using x by simp
  qed
  have hi: "x < 2 powr of_int (k + 1)"
  proof -
    have "of_int m * (2::real) powr of_int (k - 52) < 2 ^ 53 * 2 powr of_int (k - 52)"
      using m(2) by (intro mult_strict_right_mono) (simp_all add: of_int_less_numeral_power_cancel_iff)
    also have "\<dots> = 2 powr of_int (k + 1)"
      by (simp add: powr_diff powr_add)
    finally show ?thesis using x by simp
  qed
  have "\<lfloor>log 2 x\<rfloor> = k"
    using lo hi pos by (simp add: floor_log_eq_powr_iff)
  then have "\<lfloor>log 2 \<bar>x\<bar>\<rfloor> = k" using pos by simp
  then have e: "fl_exponent x = k - 52" unfolding fl_exponent_def using k by linarith
  have "x / 2 powr of_int (k - 52) = of_int m" using x by simp
  then have r: "round_half_even (x / 2 powr of_int (k - 52)) = m"
    by (simp only: round_half_even_of_int)
  have "fl x = of_int (round_half_even (x / 2 powr of_int (fl_exponent x)))
                 * 2 powr of_int (fl_exponent x)"
    using pos by (simp add: fl_def)
  also have "\<dots> = of_int m * 2 powr of_int (k - 52)" by (simp only: e r)
  also have "\<dots> = x" by (simp only: x)
  finally show ?thesis .
qed

lemma fl_half: "fl (1 / 2) = 1 / 2"
  by (rule fl_exact [where m = "2 ^ 52" and k = "- 1"]) (simp_all add: powr_minus)

lemma fl_three_halves: "fl (3 / 2) = 3 / 2"
  by (rule fl_exact [where m = "3 * 2 ^ 51" and k = 0]) (simp_all add: powr_minus)

text \<open>The rounding reproduces the double that Python prints as 0.1.\<close>

lemma fl_tenth: "fl (1 / 10) = 3602879701896397 / 36028797018963968"
proof -
  have "\<lfloor>log 2 (1 / 10 :: real)\<rfloor> = - 4"
    by (subst floor_log_eq_powr_iff) (simp_all add: powr_minus)
  then have e: "fl_exponent (1 / 10) = - 56" by (simp add: fl_exponent_def)
  have y: "(1 / 10 :: real) / 2 powr (- 56) = 36028797018963968 / 5"
    by (simp add: powr_minus)
  have f: "\<lfloor>36028797018963968 / 5 :: real\<rfloor> = 7205759403792793" by simp
  have r: "round_half_even (36028797018963968 / 5) = 7205759403792794"
    by (simp add: round_half_even_def f Let_def)
  show ?thesis by (simp add: fl_def e y r powr_minus)
qed

lemma spiral_loop_fl_stuck:
  assumes "spiral_loop_fl math_cos math_sin p radius angle acc = Some res"
    and "fl (radius + effective_width_fl p) = radius" and "radius < spiral_max_radius_fl p"
  shows False
  using assms
proof (induction math_cos math_sin p radius angle acc res
    rule: spiral_loop_fl.raw_induct [rotated, consumes 1, case_names step])
  case (step loop math_cos math_sin p radius angle acc res)
  let ?step = "fl (resolution p / max radius (fl (1 / 100)))"
  let ?x = "fl (fl (wall_width p / 2) + fl (radius * math_cos angle))"
  let ?y = "fl (fl (wall_height p / 2) + fl (radius * math_sin angle))"
  let ?acc = "if is_within_bounds_fl ?x ?y p \<and> is_point_free_fl ?x ?y p
              then acc @ [planned_point ?x ?y (fl (angle + fl (math_pi / 2)))] else acc"
  show ?case
  proof (cases "fl (angle + ?step) \<ge> fl (2 * math_pi)")
    case True
    then have "loop math_cos math_sin p radius 0 ?acc = Some res"
      using step.hyps step.prems by (simp add: Let_def)
    from step.IH [OF this] show ?thesis using step.prems by simp
  next
    case False
    then have "loop math_cos math_sin p radius (fl (angle + ?step)) ?acc = Some res"
      using step.hyps step.prems by (simp add: Let_def)
    from step.IH [OF this] show ?thesis using step.prems by simp
  qed
qed

lemma smallest_double_halved: "(2::real) powr (- 1074) / 2 = 2 powr (- 1075)"
proof -
  have "(2::real) powr (- 1075) = 2 powr (- 1074 + - 1)" by simp
  also have "\<dots> = 2 powr (- 1074) * 2 powr (- 1)" by (rule powr_add)
  also have "(2::real) powr (- 1) = 1 / 2" by (simp add: powr_minus)
  finally show ?thesis by simp
qed

lemma underflow_radius: "fl (robot_width underflow_example / 2) = 0"
proof -
  have "fl (2 powr (- 1074) / 2) = 0"
    by (rule fl_underflow) (simp_all only: smallest_double_halved powr_gt_zero order_refl)
  then show ?thesis by (simp add: underflow_example_def)
qed

lemma underflow_effective_width: "effective_width_fl underflow_example = 0"
proof -
  have a: "(50::real) / 100 = 1 / 2" by simp
  have b: "(1::real) - 1 / 2 = 1 / 2" by simp
  have c: "(2::real) powr (- 1074) * (1 / 2) = 2 powr (- 1074) / 2" by simp
  have "fl (2 powr (- 1074) * fl (1 - fl (50 / 100))) = fl (2 powr (- 1074) / 2)"
    by (simp only: a fl_half b c)
  also have "\<dots> = 0"
    by (rule fl_underflow) (simp_all only: smallest_double_halved powr_gt_zero order_refl)
  finally show ?thesis by (simp add: effective_width_fl_def underflow_example_def)
qed

lemma underflow_max_radius: "spiral_max_radius_fl underflow_example = 3 / 2"
  using underflow_radius
  by (simp add: spiral_max_radius_fl_def underflow_example_def fl_three_halves)

section \<open>The claims about the planners\<close>

text \<open>
  Claim C1. Every point a planner emits lies in the surface rectangle shrunk inward by half
  the robot width. The boustrophedon and spiral planners keep to it (lemmas
  \<open>plan_boustrophedon_within\<close> and \<open>plan_spiral_within\<close>); the zigzag planner does not:
  on a 3 by 3 surface with robot width 0.1, overlap 20 and resolution 0.05 its first point
  is (0, 0.05), whose x is below half the robot width.
\<close>

theorem zigzag_first_point_outside_bounds:
  "(\<exists>rest. plan_zigzag zigzag_example = Inr (planned_point 0 (1 / 20) (pi / 4) # rest)) \<and>
   \<not> is_within_bounds (pt_x (planned_point 0 (1 / 20) (pi / 4)))
         (pt_y (planned_point 0 (1 / 20) (pi / 4))) zigzag_example"
  using plan_zigzag_example
  by (simp add: is_within_bounds_def zigzag_example_def planned_point_def)

lemma plan_boustrophedon_overlap_100:
  "overlap_percentage p = 100 \<Longrightarrow> plan_boustrophedon p = Inl ZeroDivisionError"
  by (simp add: plan_boustrophedon_def np_arange_def effective_width_def)

lemma plan_zigzag_overlap_100:
  "overlap_percentage p = 100 \<Longrightarrow> plan_zigzag p = Inl ZeroDivisionError"
  by (simp add: plan_zigzag_def Let_def effective_width_def)

lemma plan_spiral_overlap_100:
  assumes "overlap_percentage p = 100" and "robot_width p / 2 < spiral_max_radius p"
  shows "plan_spiral p = None"
proof (cases "plan_spiral p")
  case None
  then show ?thesis .
next
  case (Some res)
  have "effective_width p = 0" using assms(1) by (simp add: effective_width_def)
  from spiral_loop_stuck [OF Some [unfolded plan_spiral_def] this assms(2)] show ?thesis ..
qed

text \<open>
  Claim C2. A planning request whose overlap percentage is 100 fails with a validation
  error (the InvalidParameter of the specification) before any planner runs: the request
  model admits an overlap of at most 50, so the route answers with the error whatever the
  wall and the algorithm, and no point is produced.
\<close>

theorem full_overlap_request_rejected:
  assumes "req_overlap_percentage r = 100"
  shows "plan_route wall r = Some (Inl ValidationError)"
  using assms by (simp add: plan_route_def validate_request_def)

theorem full_overlap_request_rejected_witness:
  "req_overlap_percentage full_overlap_request = 100 \<and>
   plan_route example_wall full_overlap_request = Some (Inl ValidationError)"
  using full_overlap_request_rejected [of full_overlap_request example_wall]
  by (simp add: full_overlap_request_def)

text \<open>
  In exact arithmetic the loop of the spiral planner ends for every parameter set with a
  positive robot width, a positive resolution and an overlap below 100 percent: every turn
  adds the positive effective width to the radius.
\<close>

lemma plan_spiral_exact_terminates:
  assumes "0 < robot_width p" and "0 < resolution p" and "overlap_percentage p < 100"
  shows "\<exists>pts. plan_spiral p = Some pts"
  unfolding plan_spiral_def
  using assms(2) effective_width_pos [OF assms(1,3)] by (rule spiral_loop_returns)

text \<open>
  Claim C4. For every parameter set with a positive robot width, a positive resolution, an
  overlap below 100 percent and positive surface dimensions, the loop of the spiral planner
  ends and the planner returns a finite point sequence. On doubles it does not: with a robot
  width of 5e-324 and an overlap of 50 percent on a 3 by 3 surface, the effective width and
  the start radius both round to 0.0, no turn increases the radius, and the planner never
  returns, whatever \<^verbatim>\<open>math.cos\<close> and \<^verbatim>\<open>math.sin\<close> give.
\<close>

theorem spiral_never_returns_on_underflow:
  "plan_spiral_fl math_cos math_sin underflow_example = None"
proof (cases "plan_spiral_fl math_cos math_sin underflow_example")
  case None
  then show ?thesis .
next
  case (Some res)
  then have run: "spiral_loop_fl math_cos math_sin underflow_example 0 0 [] = Some res"
    by (simp add: plan_spiral_fl_def underflow_radius)
  have "fl (0 + effective_width_fl underflow_example) = 0"
    by (simp add: underflow_effective_width fl_zero)
  moreover have "0 < spiral_max_radius_fl underflow_example"
    by (simp add: underflow_max_radius)
  ultimately show ?thesis using spiral_loop_fl_stuck [OF run] by blast
qed




text \<open>
  Claim C9. On a 0.05 by 0.05 surface with a robot 0.1 wide and no obstacle, planning
  returns an empty point sequence without raising. The boustrophedon and the spiral planner
  do; the zigzag planner returns the two points (0, 0.05) and (0, 0).
\<close>

theorem degenerate_surface_plans:
  "plan_boustrophedon tiny_surface = Inr [] \<and>
   plan_spiral tiny_surface = Some [] \<and>
   plan_zigzag tiny_surface = Inr [planned_point 0 (1 / 20) (pi / 4), planned_point 0 0 (pi / 4)]"
  by (simp add: plan_boustrophedon_tiny plan_spiral_tiny plan_zigzag_tiny)

text \<open>
  Claim C10. Every point a planner returns has z = 0, the active flag set, the motion type
  linear and the feed rate 100.
\<close>

theorem planner_points_keep_defaults:
  assumes "execute_algorithm name p = Some (Inr pts)" and "pt \<in> set pts"
  shows "pt_z pt = 0 \<and> tool_active pt \<and> motion_type pt = ''linear'' \<and> feed_rate pt = 100"
proof -
  let ?Q = "\<lambda>pt. pt_z pt = 0 \<and> tool_active pt \<and> motion_type pt = ''linear'' \<and> feed_rate pt = 100"
  have "\<forall>pt\<in>set pts. ?Q pt"
  proof (cases "name = ''boustrophedon''")
    case True
    then have "plan_boustrophedon p = Inr pts"
      using assms(1) by (simp add: execute_algorithm_def)
    then show ?thesis
      by (rule plan_boustrophedon_points) (simp add: planned_point_def)
  next
    case False
    show ?thesis
    proof (cases "name = ''spiral''")
      case True
      then have "spiral_loop p (robot_width p / 2) 0 [] = Some pts"
        using assms(1) by (auto simp add: execute_algorithm_def plan_spiral_def)
      then show ?thesis
        by (rule spiral_loop_within) (simp_all add: planned_point_def)
    next
      case other: False
      then have "plan_zigzag p = Inr pts"
        using assms(1) False by (simp add: execute_algorithm_def split: if_splits)
      then show ?thesis
        by (rule plan_zigzag_points) (simp add: planned_point_def)
    qed
  qed
  then show ?thesis using assms(2) by blast
qed

theorem planner_points_keep_defaults_witness:
  "execute_algorithm ''spiral'' spiral_example =
      Some (Inr [planned_point (1 / 10 + 1 / 40 * cos 0) (1 / 10 + 1 / 40 * sin 0) (0 + pi / 2),
                 planned_point (1 / 10 + 1 / 40 * cos 4) (1 / 10 + 1 / 40 * sin 4) (4 + pi / 2)]) \<and>
   pt_z (planned_point (1 / 10 + 1 / 40 * cos 4) (1 / 10 + 1 / 40 * sin 4) (4 + pi / 2)) = 0 \<and>
   tool_active (planned_point (1 / 10 + 1 / 40 * cos 4) (1 / 10 + 1 / 40 * sin 4) (4 + pi / 2)) \<and>
   motion_type (planned_point (1 / 10 + 1 / 40 * cos 4) (1 / 10 + 1 / 40 * sin 4) (4 + pi / 2))
     = ''linear'' \<and>
   feed_rate (planned_point (1 / 10 + 1 / 40 * cos 4) (1 / 10 + 1 / 40 * sin 4) (4 + pi / 2)) = 100"
proof -
  have s: "execute_algorithm ''spiral'' spiral_example =
      Some (Inr [planned_point (1 / 10 + 1 / 40 * cos 0) (1 / 10 + 1 / 40 * sin 0) (0 + pi / 2),
                 planned_point (1 / 10 + 1 / 40 * cos 4) (1 / 10 + 1 / 40 * sin 4) (4 + pi / 2)])"
    by (simp add: execute_algorithm_def plan_spiral_example)
  from planner_points_keep_defaults [OF s, of
      "planned_point (1 / 10 + 1 / 40 * cos 4) (1 / 10 + 1 / 40 * sin 4) (4 + pi / 2)"]
  show ?thesis using s by simp
qed

end
